theory Spec2Isabelle
  imports Main
begin

section \<open>Strings of the host language\<close>

text \<open>
  The extension is TypeScript. Its strings are modelled as \<^typ>\<open>string\<close>; the settings
  strings, labels and paths it handles are taken to be ASCII, so \<open>toLowerCase\<close> maps
  \<open>A..Z\<close> to \<open>a..z\<close> and leaves every other character alone, and \<open>trim\<close> removes the
  ASCII white space and line terminators (tab, LF, VT, FF, CR, space) from both ends.
\<close>

definition toLowerCase_char :: "char \<Rightarrow> char" where
  "toLowerCase_char c =
     (case map_of (zip ''ABCDEFGHIJKLMNOPQRSTUVWXYZ'' ''abcdefghijklmnopqrstuvwxyz'') c of
        Some l \<Rightarrow> l
      | None \<Rightarrow> c)"

definition toLowerCase :: "string \<Rightarrow> string" where
  "toLowerCase s = map toLowerCase_char s"

definition isWhiteSpace :: "char \<Rightarrow> bool" where
  "isWhiteSpace c \<longleftrightarrow> c \<in> set [CHR 0x09, CHR 0x0A, CHR 0x0B, CHR 0x0C, CHR 0x0D, CHR '' '']"

definition trim :: "string \<Rightarrow> string" where
  "trim s = rev (dropWhile isWhiteSpace (rev (dropWhile isWhiteSpace s)))"

text \<open>
  \<open>s.split(sep)\<close> for a one-character separator: the pieces between the separators, in
  order; the empty string gives one empty piece.
\<close>

fun split_on :: "char \<Rightarrow> string \<Rightarrow> string list" where
  "split_on sep [] = [[]]"
| "split_on sep (c # cs) =
     (if c = sep then [] # split_on sep cs
      else (let r = split_on sep cs in (c # hd r) # tl r))"


text \<open>\<open>s.startsWith(p)\<close> and \<open>s.includes(sub)\<close>.\<close>

definition startsWith :: "string \<Rightarrow> string \<Rightarrow> bool" where
  "startsWith s p \<longleftrightarrow> take (length p) s = p"

fun includes_str :: "string \<Rightarrow> string \<Rightarrow> bool" where
  "includes_str [] sub = (sub = [])"
| "includes_str (c # cs) sub = (startsWith (c # cs) sub \<or> includes_str cs sub)"

section \<open>configManager.ts\<close>

record ExtensionConfig =
  enabled :: bool
  openPreviewToSide :: bool
  autoClosePreview :: bool
  openOnGitDiff :: bool
  previewOnlyMode :: bool
  preserveFocus :: bool
  languages :: string

definition validLanguages :: "string list" where
  "validLanguages = [''markdown'', ''asciidoc'', ''restructuredtext'']"

definition parseLanguages :: "string \<Rightarrow> string set" where
  "parseLanguages languagesStr =
     (let parsed = filter (\<lambda>s. s \<in> set validLanguages)
                     (map (\<lambda>s. toLowerCase (trim s)) (split_on CHR '','' languagesStr))
      in set (if length parsed > 0 then parsed else [''markdown'']))"

record ConfigManager =
  config :: ExtensionConfig
  enabledLanguages :: "string set"

definition loadConfigManager :: "ExtensionConfig \<Rightarrow> ConfigManager" where
  "loadConfigManager c = \<lparr>config = c, enabledLanguages = parseLanguages (languages c)\<rparr>"

definition isLanguageEnabled :: "ConfigManager \<Rightarrow> string \<Rightarrow> bool" where
  "isLanguageEnabled cm languageId \<longleftrightarrow> languageId \<in> enabledLanguages cm"

section \<open>The host editor: documents, tabs and the calls made to it\<close>

text \<open>
  The host's objects, as far as the extension reads them. A \<open>Uri\<close> is read through
  \<open>toString()\<close> (the key of every tracking set) and through \<open>fsPath\<close>. A tab's input is
  tested with \<open>instanceof\<close> against \<open>TabInputText\<close>, \<open>TabInputTextDiff\<close> and
  \<open>TabInputWebview\<close>; every other kind of input is \<open>TabInputOther\<close>.
\<close>

record Uri =
  toString :: string
  fsPath :: string

datatype TabInput =
    TabInputText Uri
  | TabInputTextDiff Uri Uri
  | TabInputWebview string
  | TabInputOther

record Tab =
  label :: string
  input :: TabInput

record TextDocument =
  uri :: Uri
  languageId :: string

record TextEditor =
  document :: TextDocument
  viewColumn :: "int option"

text \<open>
  What a handler sees of the window when it runs: the tabs of every tab group
  (\<open>vscode.window.tabGroups.all\<close>), the active tab of the active group, the active text
  editor, and the clock (\<open>Date.now()\<close>, in milliseconds).
\<close>

record Host =
  tabGroups_all :: "Tab list list"
  activeTab :: "Tab option"
  activeTextEditor :: "TextEditor option"
  now :: int

text \<open>
  The calls the extension makes to the host are recorded in the order they are made. An
  awaited call either resolves or rejects, and the window may have changed when the
  extension goes on; how the host reacts is a parameter of the model.
\<close>

datatype HostCall =
    ExecuteCommand string Uri
  | Close "Tab list"
  | ShowTextDocument TextDocument int

datatype outcome = Resolved Host | Rejected Host

record HostApi =
  executeCommand :: "string \<Rightarrow> Uri \<Rightarrow> Host \<Rightarrow> outcome"
  closeTabs :: "Tab list \<Rightarrow> Host \<Rightarrow> outcome"
  showTextDocument :: "TextDocument \<Rightarrow> int \<Rightarrow> Host \<Rightarrow> outcome"

text \<open>
  \<open>path.basename\<close> and \<open>path.extname\<close> of Node, in their POSIX form: trailing slashes are
  dropped and the last component is taken; the extension runs from the last dot of that
  component, and is empty when there is no dot, when the dot is the component's first
  character, and for the component \<open>..\<close>.
\<close>

definition basename :: "string \<Rightarrow> string" where
  "basename p =
     rev (takeWhile (\<lambda>c. c \<noteq> CHR ''/'') (dropWhile (\<lambda>c. c = CHR ''/'') (rev p)))"

definition extname :: "string \<Rightarrow> string" where
  "extname p =
     (let b = basename p;
          ext = rev (takeWhile (\<lambda>c. c \<noteq> CHR ''.'') (rev b))
      in if CHR ''.'' \<notin> set b then []
         else if Suc (length ext) = length b then []
         else if b = ''..'' then []
         else CHR ''.'' # ext)"

section \<open>types.ts\<close>

record PreviewCommands =
  toSide :: string
  sameGroup :: string

definition PREVIEW_COMMANDS :: "string \<rightharpoonup> PreviewCommands" where
  "PREVIEW_COMMANDS = map_of
     [(''markdown'',
         \<lparr>toSide = ''markdown.showPreviewToSide'', sameGroup = ''markdown.showPreview''\<rparr>),
      (''asciidoc'',
         \<lparr>toSide = ''asciidoc.showPreviewToSide'', sameGroup = ''asciidoc.showPreview''\<rparr>),
      (''restructuredtext'',
         \<lparr>toSide = ''restructuredtext.showPreviewToSide'',
          sameGroup = ''restructuredtext.showPreview''\<rparr>)]"

definition PREVIEW_VIEW_TYPES :: "string \<rightharpoonup> string" where
  "PREVIEW_VIEW_TYPES = map_of
     [(''markdown'', ''markdown.preview''),
      (''asciidoc'', ''asciidoc.preview''),
      (''restructuredtext'', ''restructuredtext.preview'')]"

definition FILE_EXTENSIONS :: "string \<rightharpoonup> string" where
  "FILE_EXTENSIONS = map_of
     [(''.md'', ''markdown''),
      (''.markdown'', ''markdown''),
      (''.mdown'', ''markdown''),
      (''.mkd'', ''markdown''),
      (''.adoc'', ''asciidoc''),
      (''.asciidoc'', ''asciidoc''),
      (''.rst'', ''restructuredtext''),
      (''.rest'', ''restructuredtext'')]"

section \<open>diffDetector.ts\<close>

definition isDiffEditor :: "Host \<Rightarrow> bool" where
  "isDiffEditor h =
     (case activeTab h of
        None \<Rightarrow> False
      | Some tab \<Rightarrow> (case input tab of TabInputTextDiff orig modi \<Rightarrow> True | _ \<Rightarrow> False))"

definition isDocumentInDiffView :: "Host \<Rightarrow> Uri \<Rightarrow> bool" where
  "isDocumentInDiffView h u =
     list_ex (\<lambda>group. list_ex (\<lambda>tab.
        (case input tab of
           TabInputTextDiff orig modi \<Rightarrow>
             toString orig = toString u \<or> toString modi = toString u
         | _ \<Rightarrow> False)) group) (tabGroups_all h)"

section \<open>tabTracker.ts\<close>

record TabTracker =
  lastProcessedClose :: "string \<rightharpoonup> int"

definition DEBOUNCE_MS :: int where
  "DEBOUNCE_MS = 100"

definition getExpectedPreviewLabel :: "Uri \<Rightarrow> string" where
  "getExpectedPreviewLabel u = ''Preview '' @ basename (fsPath u)"

definition isSupported :: "Uri \<Rightarrow> bool" where
  "isSupported u \<longleftrightarrow> FILE_EXTENSIONS (toLowerCase (extname (fsPath u))) \<noteq> None"

definition getLanguageId :: "Uri \<Rightarrow> string option" where
  "getLanguageId u = FILE_EXTENSIONS (toLowerCase (extname (fsPath u)))"

text \<open>
  The two nested loops of \<open>findPreviewTab\<close> return the first tab, group by group, that is
  a webview with the expected label, or with the language's view type and a label that
  includes the base name.
\<close>

definition findPreviewTab :: "Host \<Rightarrow> Uri \<Rightarrow> Tab option" where
  "findPreviewTab h u =
     (let expectedLabel = getExpectedPreviewLabel u in
      case getLanguageId u of
        None \<Rightarrow> None
      | Some lang \<Rightarrow>
          (let expectedViewType = PREVIEW_VIEW_TYPES lang in
           find (\<lambda>tab.
             (case input tab of
                TabInputWebview viewType \<Rightarrow>
                  label tab = expectedLabel \<or>
                  (Some viewType = expectedViewType \<and>
                   includes_str (label tab) (basename (fsPath u)))
              | _ \<Rightarrow> False)) (concat (tabGroups_all h))))"

definition isPreviewOpen :: "Host \<Rightarrow> Uri \<Rightarrow> bool" where
  "isPreviewOpen h u \<longleftrightarrow> findPreviewTab h u \<noteq> None"

text \<open>
  \<open>closePreviewForFile\<close> returns its boolean result, the tracker, the window after the
  awaited close, and the calls made.
\<close>

definition closePreviewForFile ::
  "HostApi \<Rightarrow> Uri \<Rightarrow> Host \<Rightarrow> TabTracker \<Rightarrow> bool \<times> TabTracker \<times> Host \<times> HostCall list" where
  "closePreviewForFile api u h tt =
     (let key = toString u;
          lastProcessed = (case lastProcessedClose tt key of Some t \<Rightarrow> t | None \<Rightarrow> 0)
      in if now h - lastProcessed < DEBOUNCE_MS then (False, tt, h, [])
         else
           (let tt' = tt\<lparr>lastProcessedClose := (lastProcessedClose tt)(key \<mapsto> now h)\<rparr> in
            case findPreviewTab h u of
              Some previewTab \<Rightarrow>
                (case closeTabs api [previewTab] h of
                   Resolved h' \<Rightarrow> (True, tt', h', [Close [previewTab]])
                 | Rejected h' \<Rightarrow> (False, tt', h', [Close [previewTab]]))
            | None \<Rightarrow> (False, tt', h, [])))"

definition cleanupDebounceMap :: "Host \<Rightarrow> TabTracker \<Rightarrow> TabTracker" where
  "cleanupDebounceMap h tt =
     (let cutoff = now h - DEBOUNCE_MS * 10 in
      tt\<lparr>lastProcessedClose :=
            (\<lambda>key. case lastProcessedClose tt key of
                      None \<Rightarrow> None
                    | Some timestamp \<Rightarrow> if timestamp < cutoff then None else Some timestamp)\<rparr>)"

section \<open>previewManager.ts\<close>

text \<open>
  The manager's state: the keys of the documents whose preview it has opened, the keys
  of the sources closed by preview-only mode, and the pending debounced opens. A pending
  open is the timer set by \<open>handleDocumentOpen\<close>, with the document its callback will
  pass on; clearing a timer removes the entry. The manager reads the settings through
  its \<open>ConfigManager\<close> and closes previews through its \<open>TabTracker\<close>. The logger's
  output is left out, and so is the length of the waits (the 50 milliseconds of the open
  debounce and of the pause before the focus is restored).

  An \<open>async\<close> function is run to its end: the window is passed through its awaited
  calls, and the host's reaction to each is the \<open>HostApi\<close> parameter. What other
  handlers do while such a function waits is modelled as happening after it.
\<close>

record PreviewManager =
  openedPreviews :: "string set"
  previewOnlyClosedUris :: "string set"
  pendingOpens :: "string \<rightharpoonup> TextDocument"
  configManager :: ConfigManager
  tabTracker :: TabTracker

definition isSupportedDocument :: "TextDocument \<Rightarrow> bool" where
  "isSupportedDocument doc =
     (let langId = languageId doc in
      if langId = ''markdown'' \<or> langId = ''asciidoc'' \<or> langId = ''restructuredtext''
      then True
      else FILE_EXTENSIONS (toLowerCase (extname (fsPath (uri doc)))) \<noteq> None)"

definition getLanguageId_document :: "TextDocument \<Rightarrow> string option" where
  "getLanguageId_document doc =
     (let langId = languageId doc in
      if langId = ''markdown'' \<or> langId = ''asciidoc'' \<or> langId = ''restructuredtext''
      then Some langId
      else FILE_EXTENSIONS (toLowerCase (extname (fsPath (uri doc)))))"

definition previewViewTypes :: "string list" where
  "previewViewTypes = [''markdown.preview'', ''asciidoc.preview'', ''restructuredtext.preview'']"

definition closeAllMarkdownPreviews :: "HostApi \<Rightarrow> Host \<Rightarrow> Host \<times> HostCall list" where
  "closeAllMarkdownPreviews api h =
     (let tabsToClose =
            filter (\<lambda>tab.
              (case input tab of
                 TabInputWebview viewType \<Rightarrow>
                   viewType \<in> set previewViewTypes \<or> startsWith (label tab) ''Preview ''
               | _ \<Rightarrow> False)) (concat (tabGroups_all h))
      in if length tabsToClose > 0
         then (case closeTabs api tabsToClose h of
                 Resolved h' \<Rightarrow> (h', [Close tabsToClose])
               | Rejected h' \<Rightarrow> (h', [Close tabsToClose]))
         else (h, []))"

text \<open>
  The loop of \<open>closeSourceEditor\<close> over the tabs: it returns at the first text tab of the
  document whose close resolves; when a close rejects it takes the mark back and goes on.
\<close>

fun closeSourceEditor_tabs ::
  "HostApi \<Rightarrow> string \<Rightarrow> Tab list \<Rightarrow> Host \<Rightarrow> PreviewManager \<Rightarrow>
     PreviewManager \<times> Host \<times> HostCall list" where
  "closeSourceEditor_tabs api key [] h pm = (pm, h, [])"
| "closeSourceEditor_tabs api key (tab # tabs) h pm =
     (case input tab of
        TabInputText u \<Rightarrow>
          if toString u = key
          then (case closeTabs api [tab] h of
                  Resolved h' \<Rightarrow> (pm, h', [Close [tab]])
                | Rejected h' \<Rightarrow>
                    (case closeSourceEditor_tabs api key tabs h'
                            (pm\<lparr>previewOnlyClosedUris := previewOnlyClosedUris pm - {key}\<rparr>) of
                       (pm', h'', calls) \<Rightarrow> (pm', h'', Close [tab] # calls)))
          else closeSourceEditor_tabs api key tabs h pm
      | _ \<Rightarrow> closeSourceEditor_tabs api key tabs h pm)"

definition closeSourceEditor ::
  "HostApi \<Rightarrow> Uri \<Rightarrow> Host \<Rightarrow> PreviewManager \<Rightarrow> PreviewManager \<times> Host \<times> HostCall list" where
  "closeSourceEditor api u h pm =
     (let key = toString u in
      closeSourceEditor_tabs api key (concat (tabGroups_all h)) h
        (pm\<lparr>previewOnlyClosedUris := insert key (previewOnlyClosedUris pm)\<rparr>))"

text \<open>
  \<open>openPreviewIfNeeded\<close>. The table \<open>PREVIEW_COMMANDS\<close> has an entry for every language
  id that \<open>getLanguageId\<close> returns; without one the source would throw before it changes
  anything, which is the branch that returns the state as it is.
\<close>

definition openPreviewIfNeeded ::
  "HostApi \<Rightarrow> TextDocument \<Rightarrow> Host \<Rightarrow> PreviewManager \<Rightarrow>
     PreviewManager \<times> Host \<times> HostCall list" where
  "openPreviewIfNeeded api doc h pm =
     (let cfg = config (configManager pm);
          key = toString (uri doc)
      in if key \<in> openedPreviews pm then (pm, h, [])
         else if \<not> previewOnlyMode cfg \<and> isPreviewOpen h (uri doc)
         then (pm\<lparr>openedPreviews := insert key (openedPreviews pm)\<rparr>, h, [])
         else if \<not> openOnGitDiff cfg \<and> isDiffEditor h then (pm, h, [])
         else if \<not> openOnGitDiff cfg \<and> isDocumentInDiffView h (uri doc) then (pm, h, [])
         else
           (case getLanguageId_document doc of
              None \<Rightarrow> (pm, h, [])
            | Some lang \<Rightarrow>
                (case PREVIEW_COMMANDS lang of
                   None \<Rightarrow> (pm, h, [])
                 | Some commands \<Rightarrow>
                     (let command = (if openPreviewToSide cfg then toSide commands
                                     else sameGroup commands);
                          pm1 = pm\<lparr>openedPreviews := insert key (openedPreviews pm)\<rparr>;
                          activeEditor = activeTextEditor h;
                          (h1, calls1) = (if previewOnlyMode cfg
                                          then closeAllMarkdownPreviews api h else (h, []))
                      in case executeCommand api command (uri doc) h1 of
                           Rejected h2 \<Rightarrow>
                             (pm1\<lparr>openedPreviews := openedPreviews pm1 - {key}\<rparr>, h2,
                              calls1 @ [ExecuteCommand command (uri doc)])
                         | Resolved h2 \<Rightarrow>
                             if previewOnlyMode cfg
                             then (case closeSourceEditor api (uri doc) h2 pm1 of
                                     (pm2, h3, calls3) \<Rightarrow>
                                       (pm2, h3,
                                        calls1 @ ExecuteCommand command (uri doc) # calls3))
                             else
                               (case activeEditor of
                                  Some editor \<Rightarrow>
                                    (case viewColumn editor of
                                       Some activeViewColumn \<Rightarrow>
                                         if preserveFocus cfg \<and> activeViewColumn \<noteq> 0
                                         then (case showTextDocument api (document editor)
                                                      activeViewColumn h2 of
                                                 Resolved h3 \<Rightarrow>
                                                   (pm1, h3,
                                                    calls1 @
                                                    [ExecuteCommand command (uri doc),
                                                     ShowTextDocument (document editor)
                                                       activeViewColumn])
                                               | Rejected h3 \<Rightarrow>
                                                   (pm1\<lparr>openedPreviews :=
                                                           openedPreviews pm1 - {key}\<rparr>, h3,
                                                    calls1 @
                                                    [ExecuteCommand command (uri doc),
                                                     ShowTextDocument (document editor)
                                                       activeViewColumn]))
                                         else (pm1, h2,
                                               calls1 @ [ExecuteCommand command (uri doc)])
                                     | None \<Rightarrow>
                                         (pm1, h2, calls1 @ [ExecuteCommand command (uri doc)]))
                                | None \<Rightarrow>
                                    (pm1, h2, calls1 @ [ExecuteCommand command (uri doc)]))))))"

text \<open>
  \<open>handleDocumentOpen\<close> replaces the pending open of the key; the timer's callback
  (\<open>openDebounceElapsed\<close>) removes the entry and calls \<open>openPreviewIfNeeded\<close>.
\<close>

definition handleDocumentOpen :: "TextDocument \<Rightarrow> PreviewManager \<Rightarrow> PreviewManager" where
  "handleDocumentOpen doc pm =
     (let cfg = config (configManager pm) in
      if \<not> enabled cfg then pm
      else if \<not> isSupportedDocument doc then pm
      else
        (case getLanguageId_document doc of
           None \<Rightarrow> pm
         | Some lang \<Rightarrow>
             if \<not> isLanguageEnabled (configManager pm) lang then pm
             else pm\<lparr>pendingOpens := (pendingOpens pm)(toString (uri doc) \<mapsto> doc)\<rparr>))"

definition openDebounceElapsed ::
  "HostApi \<Rightarrow> string \<Rightarrow> Host \<Rightarrow> PreviewManager \<Rightarrow> PreviewManager \<times> Host \<times> HostCall list" where
  "openDebounceElapsed api key h pm =
     (case pendingOpens pm key of
        None \<Rightarrow> (pm, h, [])
      | Some doc \<Rightarrow>
          openPreviewIfNeeded api doc h (pm\<lparr>pendingOpens := (pendingOpens pm)(key := None)\<rparr>))"

text \<open>
  \<open>handleTabChanges\<close> is synchronous: every closed tab is handled against the same view
  of the window, and \<open>closePreviewForFile\<close> is not awaited, so only its calls and the
  tracker it leaves are kept. The last argument is the outcome of
  \<open>Math.random() < 0.1\<close>.
\<close>

definition handleClosedTab ::
  "HostApi \<Rightarrow> Host \<Rightarrow> Tab \<Rightarrow> PreviewManager \<times> HostCall list \<Rightarrow>
     PreviewManager \<times> HostCall list" where
  "handleClosedTab api h closedTab acc =
     (case acc of (pm, calls) \<Rightarrow>
        (case input closedTab of
           TabInputText u \<Rightarrow>
             (let key = toString u in
              if isSupported u
              then if key \<in> previewOnlyClosedUris pm
                   then (pm\<lparr>previewOnlyClosedUris := previewOnlyClosedUris pm - {key}\<rparr>, calls)
                   else (case closePreviewForFile api u h (tabTracker pm) of
                           (r, tt', h', calls') \<Rightarrow>
                             (pm\<lparr>tabTracker := tt',
                                 openedPreviews := openedPreviews pm - {key}\<rparr>,
                              calls @ calls'))
              else (pm, calls))
         | _ \<Rightarrow> (pm, calls)))"

definition handleTabChanges ::
  "HostApi \<Rightarrow> Tab list \<Rightarrow> bool \<Rightarrow> Host \<Rightarrow> PreviewManager \<Rightarrow> PreviewManager \<times> HostCall list" where
  "handleTabChanges api closed randomBelowTenth h pm =
     (let cfg = config (configManager pm) in
      if \<not> enabled cfg \<or> \<not> autoClosePreview cfg then (pm, [])
      else
        (case foldl (\<lambda>acc closedTab. handleClosedTab api h closedTab acc) (pm, []) closed of
           (pm', calls) \<Rightarrow>
             (if randomBelowTenth
              then pm'\<lparr>tabTracker := cleanupDebounceMap h (tabTracker pm')\<rparr>
              else pm',
              calls)))"

definition handleEditorActivation ::
  "HostApi \<Rightarrow> TextEditor \<Rightarrow> Host \<Rightarrow> PreviewManager \<Rightarrow>
     PreviewManager \<times> Host \<times> HostCall list" where
  "handleEditorActivation api editor h pm =
     (let cfg = config (configManager pm) in
      if \<not> enabled cfg then (pm, h, [])
      else if previewOnlyMode cfg then (pm, h, [])
      else
        (let doc = document editor in
         if \<not> isSupportedDocument doc then (pm, h, [])
         else
           (case getLanguageId_document doc of
              None \<Rightarrow> (pm, h, [])
            | Some lang \<Rightarrow>
                if \<not> isLanguageEnabled (configManager pm) lang then (pm, h, [])
                else
                  (let key = toString (uri doc) in
                   if pendingOpens pm key \<noteq> None \<or> key \<in> openedPreviews pm then (pm, h, [])
                   else if \<not> isPreviewOpen h (uri doc) then openPreviewIfNeeded api doc h pm
                   else (pm, h, [])))))"

definition handleDocumentClose :: "TextDocument \<Rightarrow> PreviewManager \<Rightarrow> PreviewManager" where
  "handleDocumentClose doc pm = pm\<lparr>openedPreviews := openedPreviews pm - {toString (uri doc)}\<rparr>"

definition openPreviewForActiveEditor ::
  "HostApi \<Rightarrow> Host \<Rightarrow> PreviewManager \<Rightarrow> PreviewManager \<times> Host \<times> HostCall list" where
  "openPreviewForActiveEditor api h pm =
     (case activeTextEditor h of
        None \<Rightarrow> (pm, h, [])
      | Some editor \<Rightarrow>
          if isSupportedDocument (document editor)
          then openPreviewIfNeeded api (document editor) h
                 (pm\<lparr>openedPreviews :=
                       openedPreviews pm - {toString (uri (document editor))}\<rparr>)
          else (pm, h, []))"

definition dispose :: "PreviewManager \<Rightarrow> PreviewManager" where
  "dispose pm = pm\<lparr>pendingOpens := Map.empty, openedPreviews := {}, previewOnlyClosedUris := {}\<rparr>"

section \<open>extension.ts and the events the host delivers\<close>

text \<open>The callback of the timer that \<open>processExistingDocuments\<close> sets at activation.\<close>

definition processExistingDocuments ::
  "HostApi \<Rightarrow> Host \<Rightarrow> PreviewManager \<Rightarrow> PreviewManager \<times> Host \<times> HostCall list" where
  "processExistingDocuments api h pm =
     (case activeTextEditor h of
        None \<Rightarrow> (pm, h, [])
      | Some activeEditor \<Rightarrow>
          if languageId (document activeEditor) \<in>
               set [''markdown'', ''asciidoc'', ''restructuredtext'']
          then openPreviewForActiveEditor api h pm
          else (pm, h, []))"

text \<open>
  The entry points through which the host runs the manager: the four listeners that its
  constructor registers, the configuration listener of the \<open>ConfigManager\<close> (with the
  settings it then loads), the two timer callbacks, and \<open>dispose\<close>.
\<close>

datatype Event =
    DidOpenTextDocument TextDocument
  | OpenDebounceElapsed string
  | DidChangeTabs "Tab list" bool
  | DidChangeActiveTextEditor "TextEditor option"
  | DidCloseTextDocument TextDocument
  | DidChangeConfiguration ExtensionConfig
  | ProcessExistingDocuments
  | Dispose

definition react ::
  "HostApi \<Rightarrow> Host \<Rightarrow> Event \<Rightarrow> PreviewManager \<Rightarrow> PreviewManager \<times> HostCall list" where
  "react api h ev pm =
     (case ev of
        DidOpenTextDocument doc \<Rightarrow> (handleDocumentOpen doc pm, [])
      | OpenDebounceElapsed key \<Rightarrow>
          (case openDebounceElapsed api key h pm of (pm', h', calls) \<Rightarrow> (pm', calls))
      | DidChangeTabs closed randomBelowTenth \<Rightarrow>
          handleTabChanges api closed randomBelowTenth h pm
      | DidChangeActiveTextEditor None \<Rightarrow> (pm, [])
      | DidChangeActiveTextEditor (Some editor) \<Rightarrow>
          (case handleEditorActivation api editor h pm of (pm', h', calls) \<Rightarrow> (pm', calls))
      | DidCloseTextDocument doc \<Rightarrow> (handleDocumentClose doc pm, [])
      | DidChangeConfiguration cfg \<Rightarrow> (pm\<lparr>configManager := loadConfigManager cfg\<rparr>, [])
      | ProcessExistingDocuments \<Rightarrow>
          (case processExistingDocuments api h pm of (pm', h', calls) \<Rightarrow> (pm', calls))
      | Dispose \<Rightarrow> (dispose pm, []))"

text \<open>A run: each event comes with the window as it is when the event is handled.\<close>

fun run ::
  "HostApi \<Rightarrow> (Host \<times> Event) list \<Rightarrow> PreviewManager \<Rightarrow> PreviewManager \<times> HostCall list" where
  "run api [] pm = (pm, [])"
| "run api ((h, ev) # evs) pm =
     (case react api h ev pm of
        (pm', calls) \<Rightarrow>
          (case run api evs pm' of (pm'', calls') \<Rightarrow> (pm'', calls @ calls')))"

section \<open>Abbreviations used to state the properties of the auto-close handler\<close>

text \<open>
  For the closed tabs of a tab-change event: the keys of the closed text tabs with a
  supported extension, as a set and as a list in the order of the tabs; and the calls that
  closing one tab gives rise to in a given state of the manager.
\<close>

abbreviation closedKeys :: "Tab list \<Rightarrow> string set" where
  "closedKeys closed \<equiv>
     {toString u | u. \<exists>tab \<in> set closed. input tab = TabInputText u \<and> isSupported u}"

abbreviation closedKeyList :: "Tab list \<Rightarrow> string list" where
  "closedKeyList closed \<equiv>
     concat (map (\<lambda>tab. case input tab of
                           TabInputText u \<Rightarrow> if isSupported u then [toString u] else []
                         | _ \<Rightarrow> []) closed)"

abbreviation closeCallsFor :: "PreviewManager \<Rightarrow> Host \<Rightarrow> Tab \<Rightarrow> HostCall list" where
  "closeCallsFor pm h closedTab \<equiv>
     (case input closedTab of
        TabInputText u \<Rightarrow>
          if isSupported u \<and> toString u \<notin> previewOnlyClosedUris pm \<and>
             100 \<le> now h - (case lastProcessedClose (tabTracker pm) (toString u) of
                               Some t \<Rightarrow> t | None \<Rightarrow> 0)
          then (case findPreviewTab h u of Some tab \<Rightarrow> [Close [tab]] | None \<Rightarrow> [])
          else []
      | _ \<Rightarrow> [])"

section \<open>An example workspace\<close>

text \<open>
  A markdown file \<open>README.md\<close>, open as a text tab, in a diff against its committed
  version, and in a preview; the settings are the defaults of \<open>loadConfig\<close>, and the same
  with preview-only mode switched on. \<open>ex_host_closed\<close> is the window once the source tab
  is closed; \<open>ex_manager_tracking\<close> has opened the preview of the file, and
  \<open>ex_manager_recent\<close> has also processed a close for it 50 milliseconds ago. The host
  \<open>ex_api\<close> resolves every call and removes the tabs it is asked to close;
  \<open>ex_api_failing\<close> rejects every command (the preview extension is not installed).
\<close>

definition ex_readme :: Uri where
  "ex_readme = \<lparr>toString = ''file:///w/README.md'', fsPath = ''/w/README.md''\<rparr>"

definition ex_readme_head :: Uri where
  "ex_readme_head = \<lparr>toString = ''git:/w/README.md?HEAD'', fsPath = ''/w/README.md''\<rparr>"

definition ex_notes :: Uri where
  "ex_notes = \<lparr>toString = ''file:///w/notes.txt'', fsPath = ''/w/notes.txt''\<rparr>"

definition ex_doc :: TextDocument where
  "ex_doc = \<lparr>uri = ex_readme, languageId = ''markdown''\<rparr>"

definition ex_tab_source :: Tab where
  "ex_tab_source = \<lparr>label = ''README.md'', input = TabInputText ex_readme\<rparr>"

definition ex_tab_diff :: Tab where
  "ex_tab_diff =
     \<lparr>label = ''README.md (Working Tree)'', input = TabInputTextDiff ex_readme_head ex_readme\<rparr>"

definition ex_tab_preview :: Tab where
  "ex_tab_preview =
     \<lparr>label = ''Preview README.md'', input = TabInputWebview ''markdown.preview''\<rparr>"

definition ex_editor :: TextEditor where
  "ex_editor = \<lparr>document = ex_doc, viewColumn = Some 1\<rparr>"

definition ex_host_diff :: Host where
  "ex_host_diff =
     \<lparr>tabGroups_all = [[ex_tab_source, ex_tab_diff], [ex_tab_preview]],
      activeTab = Some ex_tab_diff, activeTextEditor = None, now = 1000000\<rparr>"

definition ex_host_source :: Host where
  "ex_host_source =
     \<lparr>tabGroups_all = [[ex_tab_source]],
      activeTab = Some ex_tab_source, activeTextEditor = Some ex_editor, now = 1000000\<rparr>"

definition ex_host_preview :: Host where
  "ex_host_preview =
     \<lparr>tabGroups_all = [[ex_tab_source], [ex_tab_preview]],
      activeTab = Some ex_tab_source, activeTextEditor = Some ex_editor, now = 1000000\<rparr>"

definition ex_config :: ExtensionConfig where
  "ex_config =
     \<lparr>enabled = True, openPreviewToSide = True, autoClosePreview = True,
      openOnGitDiff = False, previewOnlyMode = False, preserveFocus = True,
      languages = ''markdown''\<rparr>"

definition ex_config_reader :: ExtensionConfig where
  "ex_config_reader = ex_config\<lparr>previewOnlyMode := True\<rparr>"

definition ex_manager :: "ExtensionConfig \<Rightarrow> PreviewManager" where
  "ex_manager cfg =
     \<lparr>openedPreviews = {}, previewOnlyClosedUris = {}, pendingOpens = Map.empty,
      configManager = loadConfigManager cfg,
      tabTracker = \<lparr>lastProcessedClose = Map.empty\<rparr>\<rparr>"

definition ex_host_closed :: Host where
  "ex_host_closed =
     \<lparr>tabGroups_all = [[], [ex_tab_preview]],
      activeTab = Some ex_tab_preview, activeTextEditor = None, now = 1000000\<rparr>"

definition ex_manager_tracking :: PreviewManager where
  "ex_manager_tracking = (ex_manager ex_config)\<lparr>openedPreviews := {toString ex_readme}\<rparr>"

definition ex_manager_recent :: PreviewManager where
  "ex_manager_recent =
     ex_manager_tracking\<lparr>tabTracker := \<lparr>lastProcessedClose = [toString ex_readme \<mapsto> 999950]\<rparr>\<rparr>"

definition ex_api :: HostApi where
  "ex_api =
     \<lparr>executeCommand = (\<lambda>command u h. Resolved h),
      closeTabs = (\<lambda>tabs h.
         Resolved (h\<lparr>tabGroups_all := map (filter (\<lambda>tab. tab \<notin> set tabs)) (tabGroups_all h)\<rparr>)),
      showTextDocument = (\<lambda>doc column h. Resolved h)\<rparr>"

definition ex_api_failing :: HostApi where
  "ex_api_failing = ex_api\<lparr>executeCommand := (\<lambda>command u h. Rejected h)\<rparr>"

section \<open>Properties of the settings source\<close>







section \<open>Facts about the example workspace\<close>

lemma ex_paths:
  "extname (fsPath ex_readme) = ''.md''"
  "extname (fsPath ex_notes) = ''.txt''"
  "basename (fsPath ex_readme) = ''README.md''"
  by (simp_all add: ex_readme_def ex_notes_def extname_def basename_def)

lemma ex_languages:
  "FILE_EXTENSIONS (toLowerCase ''.md'') = Some ''markdown''"
  "FILE_EXTENSIONS (toLowerCase ''.txt'') = None"
  "PREVIEW_VIEW_TYPES ''markdown'' = Some ''markdown.preview''"
  by (simp_all add: FILE_EXTENSIONS_def PREVIEW_VIEW_TYPES_def toLowerCase_def toLowerCase_char_def)

lemma ex_findPreviewTab:
  "findPreviewTab ex_host_diff ex_readme = Some ex_tab_preview"
  "findPreviewTab ex_host_preview ex_readme = Some ex_tab_preview"
  "findPreviewTab ex_host_source ex_readme = None"
  by (simp_all add: findPreviewTab_def getLanguageId_def ex_paths ex_languages
      getExpectedPreviewLabel_def ex_host_diff_def ex_host_preview_def ex_host_source_def
      ex_tab_diff_def ex_tab_source_def ex_tab_preview_def)

section \<open>The diff-view detector\<close>

text \<open>
  Claim C6. \<open>isDocumentInDiffView\<close> holds exactly when some tab of some tab group has a
  text-diff input whose original or modified URI is the given one (compared, as the code
  does, through \<open>toString\<close>); \<open>isDiffEditor\<close> holds exactly when there is an active tab
  and its input is a text-diff input, so it is false without an active tab.
\<close>

theorem diffDetector_spec:
  "(isDocumentInDiffView h u \<longleftrightarrow>
      (\<exists>group \<in> set (tabGroups_all h). \<exists>tab \<in> set group. \<exists>orig modi.
          input tab = TabInputTextDiff orig modi \<and>
          (toString orig = toString u \<or> toString modi = toString u))) \<and>
   (isDiffEditor h \<longleftrightarrow>
      (\<exists>tab orig modi. activeTab h = Some tab \<and> input tab = TabInputTextDiff orig modi)) \<and>
   (activeTab h = None \<longrightarrow> \<not> isDiffEditor h)"
proof -
  have a: "isDocumentInDiffView h u \<longleftrightarrow>
      (\<exists>group \<in> set (tabGroups_all h). \<exists>tab \<in> set group. \<exists>orig modi.
          input tab = TabInputTextDiff orig modi \<and>
          (toString orig = toString u \<or> toString modi = toString u))"
    unfolding isDocumentInDiffView_def list_ex_iff
    by (rule bex_cong [OF refl], rule bex_cong [OF refl]) (auto split: TabInput.splits)
  have b: "isDiffEditor h \<longleftrightarrow>
      (\<exists>tab orig modi. activeTab h = Some tab \<and> input tab = TabInputTextDiff orig modi)"
    by (auto simp: isDiffEditor_def split: option.splits TabInput.splits)
  have c: "activeTab h = None \<longrightarrow> \<not> isDiffEditor h"
    by (simp add: isDiffEditor_def)
  from a b c show ?thesis by blast
qed

theorem diffDetector_spec_witness:
  "isDocumentInDiffView ex_host_diff ex_readme \<and> \<not> isDocumentInDiffView ex_host_diff ex_notes \<and>
   isDiffEditor ex_host_diff \<and> \<not> isDiffEditor (ex_host_diff\<lparr>activeTab := None\<rparr>)"
  using diffDetector_spec [of ex_host_diff ex_readme] diffDetector_spec [of ex_host_diff ex_notes]
    diffDetector_spec [of "ex_host_diff\<lparr>activeTab := None\<rparr>" ex_readme]
  by (simp add: ex_host_diff_def ex_tab_diff_def ex_tab_source_def ex_tab_preview_def
      ex_readme_def ex_readme_head_def ex_notes_def)

section \<open>The preview-tab correlator\<close>

lemma find_SomeD: "find P xs = Some x \<Longrightarrow> x \<in> set xs \<and> P x"
  by (induction xs) (auto split: if_splits)

text \<open>
  Claim C5. The expected label of a source URI is \<open>Preview\<close>, a space, and the base name
  of its path. A tab that \<open>findPreviewTab\<close> returns is one of the open tabs and is a
  webview whose label is the expected label, or whose view type is the preview view type
  of the URI's language and whose label includes the base name. When the extension of the
  path maps to no supported language, \<open>findPreviewTab\<close> returns nothing.
\<close>

theorem findPreviewTab_spec:
  "getExpectedPreviewLabel u = ''Preview '' @ basename (fsPath u) \<and>
   (\<forall>tab. findPreviewTab h u = Some tab \<longrightarrow>
      (\<exists>group \<in> set (tabGroups_all h). tab \<in> set group) \<and>
      (\<exists>lang viewType.
          FILE_EXTENSIONS (toLowerCase (extname (fsPath u))) = Some lang \<and>
          input tab = TabInputWebview viewType \<and>
          (label tab = getExpectedPreviewLabel u \<or>
           (PREVIEW_VIEW_TYPES lang = Some viewType \<and>
            includes_str (label tab) (basename (fsPath u)))))) \<and>
   (FILE_EXTENSIONS (toLowerCase (extname (fsPath u))) = None \<longrightarrow> findPreviewTab h u = None)"
proof -
  have a: "getExpectedPreviewLabel u = ''Preview '' @ basename (fsPath u)"
    by (simp add: getExpectedPreviewLabel_def)
  have c: "FILE_EXTENSIONS (toLowerCase (extname (fsPath u))) = None \<longrightarrow> findPreviewTab h u = None"
    by (simp add: findPreviewTab_def getLanguageId_def)
  have b: "(\<exists>group \<in> set (tabGroups_all h). tab \<in> set group) \<and>
      (\<exists>lang viewType.
          FILE_EXTENSIONS (toLowerCase (extname (fsPath u))) = Some lang \<and>
          input tab = TabInputWebview viewType \<and>
          (label tab = getExpectedPreviewLabel u \<or>
           (PREVIEW_VIEW_TYPES lang = Some viewType \<and>
            includes_str (label tab) (basename (fsPath u)))))"
    if f: "findPreviewTab h u = Some tab" for tab
  proof -
    from f obtain lang where lang: "FILE_EXTENSIONS (toLowerCase (extname (fsPath u))) = Some lang"
      by (auto simp: findPreviewTab_def getLanguageId_def split: option.splits)
    let ?P = "\<lambda>tab. (case input tab of
                TabInputWebview viewType \<Rightarrow>
                  label tab = getExpectedPreviewLabel u \<or>
                  (Some viewType = PREVIEW_VIEW_TYPES lang \<and>
                   includes_str (label tab) (basename (fsPath u)))
              | _ \<Rightarrow> False)"
    from f lang have "find ?P (concat (tabGroups_all h)) = Some tab"
      by (simp add: findPreviewTab_def getLanguageId_def Let_def)
    from find_SomeD [OF this] have m: "tab \<in> set (concat (tabGroups_all h))" and p: "?P tab"
      by blast+
    from m have g: "\<exists>group \<in> set (tabGroups_all h). tab \<in> set group" by auto
    from p obtain viewType where "input tab = TabInputWebview viewType"
      and "label tab = getExpectedPreviewLabel u \<or>
           (PREVIEW_VIEW_TYPES lang = Some viewType \<and> includes_str (label tab) (basename (fsPath u)))"
      by (cases "input tab") auto
    with lang g show ?thesis by blast
  qed
  from a b c show ?thesis by blast
qed

theorem findPreviewTab_spec_witness:
  "findPreviewTab ex_host_diff ex_readme = Some ex_tab_preview \<and>
   input ex_tab_preview = TabInputWebview ''markdown.preview'' \<and>
   label ex_tab_preview = getExpectedPreviewLabel ex_readme \<and>
   getExpectedPreviewLabel ex_readme = ''Preview README.md'' \<and>
   FILE_EXTENSIONS (toLowerCase (extname (fsPath ex_notes))) = None \<and>
   findPreviewTab ex_host_diff ex_notes = None"
  using findPreviewTab_spec [of ex_readme ex_host_diff] findPreviewTab_spec [of ex_notes ex_host_diff]
    ex_findPreviewTab(1)
  by (simp add: ex_paths ex_languages ex_tab_preview_def)

text \<open>
  Claim C4. \<open>closePreviewForFile\<close> is debounced per URI: a call made less than 100
  milliseconds after the timestamp recorded for the URI returns false, searches no tab
  (its result does not depend on the tabs) and makes no call to the host, and leaves the
  tracker as it is. A call outside the window records the clock as the URI's timestamp
  and goes on: it requests the closure of the preview tab it finds, and returns true when
  it found one and the close resolved. A further call for the same URI less than 100
  milliseconds after such a call is debounced.
\<close>

theorem closePreviewForFile_debounce:
  "(\<forall>t. lastProcessedClose tt (toString u) = Some t \<and> now h - t < 100 \<longrightarrow>
        closePreviewForFile api u h tt = (False, tt, h, [])) \<and>
   (100 \<le> now h - (case lastProcessedClose tt (toString u) of Some t \<Rightarrow> t | None \<Rightarrow> 0) \<longrightarrow>
      (\<exists>r h' calls.
         closePreviewForFile api u h tt =
           (r, tt\<lparr>lastProcessedClose := (lastProcessedClose tt)(toString u \<mapsto> now h)\<rparr>, h', calls) \<and>
         calls = (case findPreviewTab h u of None \<Rightarrow> [] | Some tab \<Rightarrow> [Close [tab]]) \<and>
         (r \<longleftrightarrow> (\<exists>tab h''. findPreviewTab h u = Some tab \<and> closeTabs api [tab] h = Resolved h'')) \<and>
         (\<forall>api2 h2. now h2 - now h < 100 \<longrightarrow>
            closePreviewForFile api2 u h2
              (tt\<lparr>lastProcessedClose := (lastProcessedClose tt)(toString u \<mapsto> now h)\<rparr>) =
            (False, tt\<lparr>lastProcessedClose := (lastProcessedClose tt)(toString u \<mapsto> now h)\<rparr>, h2, []))))"
proof -
  have a: "closePreviewForFile api u h tt = (False, tt, h, [])"
    if "lastProcessedClose tt (toString u) = Some t" "now h - t < 100" for t
    using that by (simp add: closePreviewForFile_def DEBOUNCE_MS_def)
  let ?tt = "tt\<lparr>lastProcessedClose := (lastProcessedClose tt)(toString u \<mapsto> now h)\<rparr>"
  have d: "closePreviewForFile api2 u h2 ?tt = (False, ?tt, h2, [])" if "now h2 - now h < 100" for api2 h2
    using that by (simp add: closePreviewForFile_def DEBOUNCE_MS_def)
  have b: "\<exists>r h' calls.
         closePreviewForFile api u h tt = (r, ?tt, h', calls) \<and>
         calls = (case findPreviewTab h u of None \<Rightarrow> [] | Some tab \<Rightarrow> [Close [tab]]) \<and>
         (r \<longleftrightarrow> (\<exists>tab h''. findPreviewTab h u = Some tab \<and> closeTabs api [tab] h = Resolved h''))"
    if w: "100 \<le> now h - (case lastProcessedClose tt (toString u) of Some t \<Rightarrow> t | None \<Rightarrow> 0)"
  proof (cases "findPreviewTab h u")
    case None
    with w show ?thesis by (auto simp: closePreviewForFile_def DEBOUNCE_MS_def Let_def)
  next
    case (Some tab)
    with w show ?thesis
      by (cases "closeTabs api [tab] h") (auto simp: closePreviewForFile_def DEBOUNCE_MS_def Let_def)
  qed
  from a b d show ?thesis by blast
qed

theorem closePreviewForFile_debounce_witness:
  "closePreviewForFile ex_api ex_readme ex_host_preview \<lparr>lastProcessedClose = Map.empty\<rparr> =
     (True, \<lparr>lastProcessedClose = [toString ex_readme \<mapsto> 1000000]\<rparr>,
      ex_host_preview\<lparr>tabGroups_all := [[ex_tab_source], []]\<rparr>, [Close [ex_tab_preview]]) \<and>
   closePreviewForFile ex_api ex_readme (ex_host_preview\<lparr>now := 1000099\<rparr>)
       \<lparr>lastProcessedClose = [toString ex_readme \<mapsto> 1000000]\<rparr> =
     (False, \<lparr>lastProcessedClose = [toString ex_readme \<mapsto> 1000000]\<rparr>,
      ex_host_preview\<lparr>now := 1000099\<rparr>, [])"
proof -
  let ?tt = "\<lparr>lastProcessedClose = Map.empty\<rparr>"
  have w: "100 \<le> now ex_host_preview -
      (case lastProcessedClose ?tt (toString ex_readme) of Some t \<Rightarrow> t | None \<Rightarrow> 0)"
    by (simp add: ex_host_preview_def)
  have c: "closeTabs ex_api [ex_tab_preview] ex_host_preview =
      Resolved (ex_host_preview\<lparr>tabGroups_all := [[ex_tab_source], []]\<rparr>)"
    by (simp add: ex_api_def ex_host_preview_def ex_tab_source_def ex_tab_preview_def)
  have n: "now (ex_host_preview\<lparr>now := 1000099\<rparr>) - now ex_host_preview < 100"
    by (simp add: ex_host_preview_def)
  from closePreviewForFile_debounce [of ?tt ex_readme ex_host_preview ex_api] w
  obtain r h' calls where
    1: "closePreviewForFile ex_api ex_readme ex_host_preview ?tt =
          (r, ?tt\<lparr>lastProcessedClose := (lastProcessedClose ?tt)(toString ex_readme \<mapsto> now ex_host_preview)\<rparr>, h', calls)"
    and 2: "calls = (case findPreviewTab ex_host_preview ex_readme of None \<Rightarrow> [] | Some tab \<Rightarrow> [Close [tab]])"
    and 3: "\<forall>api2 h2. now h2 - now ex_host_preview < 100 \<longrightarrow>
            closePreviewForFile api2 ex_readme h2
              (?tt\<lparr>lastProcessedClose := (lastProcessedClose ?tt)(toString ex_readme \<mapsto> now ex_host_preview)\<rparr>) =
            (False, ?tt\<lparr>lastProcessedClose := (lastProcessedClose ?tt)(toString ex_readme \<mapsto> now ex_host_preview)\<rparr>, h2, [])"
    by blast
  have direct: "closePreviewForFile ex_api ex_readme ex_host_preview ?tt =
     (True, \<lparr>lastProcessedClose = [toString ex_readme \<mapsto> 1000000]\<rparr>,
      ex_host_preview\<lparr>tabGroups_all := [[ex_tab_source], []]\<rparr>, [Close [ex_tab_preview]])"
    using w by (simp add: closePreviewForFile_def DEBOUNCE_MS_def ex_findPreviewTab c)
       (simp add: ex_host_preview_def)
  have tt_eq: "?tt\<lparr>lastProcessedClose := (lastProcessedClose ?tt)(toString ex_readme \<mapsto> now ex_host_preview)\<rparr>
      = \<lparr>lastProcessedClose = [toString ex_readme \<mapsto> 1000000]\<rparr>"
    by (simp add: ex_host_preview_def)
  from 3 n have "closePreviewForFile ex_api ex_readme (ex_host_preview\<lparr>now := 1000099\<rparr>)
       \<lparr>lastProcessedClose = [toString ex_readme \<mapsto> 1000000]\<rparr> =
     (False, \<lparr>lastProcessedClose = [toString ex_readme \<mapsto> 1000000]\<rparr>,
      ex_host_preview\<lparr>now := 1000099\<rparr>, [])"
    unfolding tt_eq by blast
  with direct show ?thesis by simp
qed

section \<open>Opening a preview\<close>

lemma ex_manager_simps:
  "config (configManager (ex_manager cfg)) = cfg"
  "openedPreviews (ex_manager cfg) = {}"
  "previewOnlyClosedUris (ex_manager cfg) = {}"
  by (simp_all add: ex_manager_def loadConfigManager_def)

lemma ex_config_simps:
  "enabled ex_config" "openPreviewToSide ex_config" "autoClosePreview ex_config"
  "\<not> openOnGitDiff ex_config" "\<not> previewOnlyMode ex_config" "preserveFocus ex_config"
  "enabled ex_config_reader" "openPreviewToSide ex_config_reader"
  "autoClosePreview ex_config_reader" "\<not> openOnGitDiff ex_config_reader"
  "previewOnlyMode ex_config_reader"
  by (simp_all add: ex_config_def ex_config_reader_def)

lemma ex_doc_simps:
  "uri ex_doc = ex_readme"
  "toString ex_readme = ''file:///w/README.md''"
  "getLanguageId_document ex_doc = Some ''markdown''"
  "isSupportedDocument ex_doc"
  "isSupported ex_readme"
  "PREVIEW_COMMANDS ''markdown'' =
     Some \<lparr>toSide = ''markdown.showPreviewToSide'', sameGroup = ''markdown.showPreview''\<rparr>"
  by (simp_all add: ex_doc_def ex_readme_def getLanguageId_document_def isSupportedDocument_def
      PREVIEW_COMMANDS_def isSupported_def extname_def basename_def FILE_EXTENSIONS_def
      toLowerCase_def toLowerCase_char_def)

lemma ex_diff:
  "isDiffEditor ex_host_diff"
  "isDocumentInDiffView ex_host_diff ex_readme"
  "\<not> isDiffEditor ex_host_preview"
  "\<not> isDocumentInDiffView ex_host_preview ex_readme"
  "\<not> isDiffEditor ex_host_source"
  "\<not> isDocumentInDiffView ex_host_source ex_readme"
  by (simp_all add: isDiffEditor_def isDocumentInDiffView_def ex_host_diff_def
      ex_host_preview_def ex_host_source_def ex_tab_diff_def ex_tab_source_def ex_tab_preview_def)








text \<open>
  Claim C1, as the code has it. When \<open>openOnGitDiff\<close> is off and the active tab is a diff
  editor or the document is a side of an open diff tab, \<open>openPreviewIfNeeded\<close> makes no
  call to the host, so it executes no preview command, and leaves the window as it is. It
  leaves the opened-previews set as it is too, with one exception: outside preview-only
  mode, when a preview tab of the document is found open and the URI is not yet in the
  set, the URI is added, because that check comes before the diff checks.
\<close>

theorem openPreviewIfNeeded_diff_skip:
  assumes "\<not> openOnGitDiff (config (configManager pm))"
    and "isDiffEditor h \<or> isDocumentInDiffView h (uri doc)"
  shows "openPreviewIfNeeded api doc h pm =
           (if toString (uri doc) \<notin> openedPreviews pm \<and>
               \<not> previewOnlyMode (config (configManager pm)) \<and> isPreviewOpen h (uri doc)
            then pm\<lparr>openedPreviews := insert (toString (uri doc)) (openedPreviews pm)\<rparr>
            else pm, h, [])"
  using assms by (auto simp: openPreviewIfNeeded_def Let_def)


theorem openPreviewIfNeeded_diff_skip_witness:
  "\<not> openOnGitDiff (config (configManager (ex_manager ex_config_reader))) \<and>
   isDiffEditor ex_host_diff \<and>
   openPreviewIfNeeded ex_api ex_doc ex_host_diff (ex_manager ex_config_reader) =
     (ex_manager ex_config_reader, ex_host_diff, [])"
proof -
  have 1: "\<not> openOnGitDiff (config (configManager (ex_manager ex_config_reader)))"
    by (simp add: ex_manager_simps ex_config_simps)
  have 2: "isDiffEditor ex_host_diff \<or> isDocumentInDiffView ex_host_diff (uri ex_doc)"
    by (simp add: ex_diff)
  show ?thesis
    using openPreviewIfNeeded_diff_skip [OF 1 2, of ex_api] 1
    by (simp add: ex_manager_simps ex_config_simps ex_diff)
qed

text \<open>
  Claim C1 as stated fails: with the default settings, \<open>README.md\<close> shown in a diff tab
  that is the active tab, and its preview tab open, \<open>openPreviewIfNeeded\<close> executes
  nothing but adds the URI to the opened-previews set.
\<close>

theorem openPreviewIfNeeded_diff_adds_uri:
  "\<not> openOnGitDiff (config (configManager (ex_manager ex_config))) \<and>
   isDiffEditor ex_host_diff \<and>
   isDocumentInDiffView ex_host_diff (uri ex_doc) \<and>
   toString (uri ex_doc) \<notin> openedPreviews (ex_manager ex_config) \<and>
   openPreviewIfNeeded ex_api ex_doc ex_host_diff (ex_manager ex_config) =
     ((ex_manager ex_config)\<lparr>openedPreviews := {toString (uri ex_doc)}\<rparr>, ex_host_diff, [])"
  by (simp add: openPreviewIfNeeded_def ex_manager_simps ex_config_simps ex_diff ex_doc_simps
      isPreviewOpen_def ex_findPreviewTab)

text \<open>
  Claim C9. When \<open>openPreviewIfNeeded\<close> gets as far as the preview command and the
  command rejects, the manager's state at the end is the state before the call: the URI,
  added before the attempt, is removed again, and nothing else was touched. The calls
  made are the close of the old previews (in preview-only mode) and the command. A later
  call for the same document in the same window executes the command again.
\<close>

theorem openPreviewIfNeeded_command_rejected:
  assumes "toString (uri doc) \<notin> openedPreviews pm"
    and "previewOnlyMode (config (configManager pm)) \<or> \<not> isPreviewOpen h (uri doc)"
    and "openOnGitDiff (config (configManager pm)) \<or>
         (\<not> isDiffEditor h \<and> \<not> isDocumentInDiffView h (uri doc))"
    and "getLanguageId_document doc = Some lang"
    and "PREVIEW_COMMANDS lang = Some commands"
    and "command = (if openPreviewToSide (config (configManager pm)) then toSide commands
                    else sameGroup commands)"
    and "h1 = (if previewOnlyMode (config (configManager pm))
               then fst (closeAllMarkdownPreviews api h) else h)"
    and "executeCommand api command (uri doc) h1 = Rejected h2"
  shows "openPreviewIfNeeded api doc h pm =
           (pm, h2,
            (if previewOnlyMode (config (configManager pm))
             then snd (closeAllMarkdownPreviews api h) else []) @
            [ExecuteCommand command (uri doc)]) \<and>
         toString (uri doc) \<notin> openedPreviews (fst (openPreviewIfNeeded api doc h pm)) \<and>
         (\<forall>api2. ExecuteCommand command (uri doc) \<in>
                   set (snd (snd (openPreviewIfNeeded api2 doc h
                                    (fst (openPreviewIfNeeded api doc h pm))))))"
proof -
  have restore: "pm\<lparr>openedPreviews := insert (toString (uri doc)) (openedPreviews pm) - {toString (uri doc)}\<rparr> = pm"
    using assms(1) by simp
  have first: "openPreviewIfNeeded api doc h pm =
           (pm, h2,
            (if previewOnlyMode (config (configManager pm))
             then snd (closeAllMarkdownPreviews api h) else []) @
            [ExecuteCommand command (uri doc)])"
    using assms restore
    by (cases "closeAllMarkdownPreviews api h")
       (auto simp: openPreviewIfNeeded_def Let_def)
  have again: "ExecuteCommand command (uri doc) \<in> set (snd (snd (openPreviewIfNeeded api2 doc h pm)))"
    for api2
    using assms(1-6)
    by (cases "closeAllMarkdownPreviews api2 h")
       (auto simp: openPreviewIfNeeded_def Let_def split: outcome.splits option.splits prod.splits)
  from first again assms(1) show ?thesis by simp
qed


theorem openPreviewIfNeeded_command_rejected_witness:
  "executeCommand ex_api_failing ''markdown.showPreviewToSide'' (uri ex_doc) ex_host_source =
     Rejected ex_host_source \<and>
   openPreviewIfNeeded ex_api_failing ex_doc ex_host_source (ex_manager ex_config) =
     (ex_manager ex_config, ex_host_source,
      [ExecuteCommand ''markdown.showPreviewToSide'' ex_readme])"
proof -
  let ?pm = "ex_manager ex_config"
  have 1: "toString (uri ex_doc) \<notin> openedPreviews ?pm"
    by (simp add: ex_manager_simps)
  have 2: "previewOnlyMode (config (configManager ?pm)) \<or> \<not> isPreviewOpen ex_host_source (uri ex_doc)"
    by (simp add: isPreviewOpen_def ex_doc_simps ex_findPreviewTab)
  have 3: "openOnGitDiff (config (configManager ?pm)) \<or>
         (\<not> isDiffEditor ex_host_source \<and> \<not> isDocumentInDiffView ex_host_source (uri ex_doc))"
    by (simp add: ex_diff ex_doc_simps)
  have 6: "''markdown.showPreviewToSide'' =
      (if openPreviewToSide (config (configManager ?pm))
       then toSide \<lparr>toSide = ''markdown.showPreviewToSide'', sameGroup = ''markdown.showPreview''\<rparr>
       else sameGroup \<lparr>toSide = ''markdown.showPreviewToSide'', sameGroup = ''markdown.showPreview''\<rparr>)"
    by (simp add: ex_manager_simps ex_config_simps)
  have 7: "ex_host_source = (if previewOnlyMode (config (configManager ?pm))
               then fst (closeAllMarkdownPreviews ex_api_failing ex_host_source) else ex_host_source)"
    by (simp add: ex_manager_simps ex_config_simps)
  have 8: "executeCommand ex_api_failing ''markdown.showPreviewToSide'' (uri ex_doc) ex_host_source =
     Rejected ex_host_source"
    by (simp add: ex_api_failing_def ex_api_def)
  show ?thesis
    using openPreviewIfNeeded_command_rejected [OF 1 2 3 ex_doc_simps(3) ex_doc_simps(6) 6 7 8] 8
    by (simp add: ex_manager_simps ex_config_simps ex_doc_simps)
qed








section \<open>Closing the preview with its source\<close>

lemma closePreviewForFile_calls:
  "closePreviewForFile api u h tt = (r, tt', h', calls) \<Longrightarrow>
     calls =
       (if 100 \<le> now h - (case lastProcessedClose tt (toString u) of Some t \<Rightarrow> t | None \<Rightarrow> 0)
        then (case findPreviewTab h u of Some tab \<Rightarrow> [Close [tab]] | None \<Rightarrow> [])
        else []) \<and>
     (\<forall>k. k \<noteq> toString u \<longrightarrow> lastProcessedClose tt' k = lastProcessedClose tt k)"
  by (auto simp: closePreviewForFile_def DEBOUNCE_MS_def Let_def
      split: if_splits option.splits outcome.splits)

text \<open>What handling one closed tab does, for every state it may start from.\<close>

lemma handleClosedTab_other:
  "(\<And>u. input closedTab = TabInputText u \<Longrightarrow> \<not> isSupported u) \<Longrightarrow>
     handleClosedTab api h closedTab (pm, calls) = (pm, calls)"
  by (cases "input closedTab") (auto simp: handleClosedTab_def)

lemma handleClosedTab_marked:
  "input closedTab = TabInputText u \<Longrightarrow> isSupported u \<Longrightarrow>
   toString u \<in> previewOnlyClosedUris pm \<Longrightarrow>
     handleClosedTab api h closedTab (pm, calls) =
       (pm\<lparr>previewOnlyClosedUris := previewOnlyClosedUris pm - {toString u}\<rparr>, calls)"
  by (simp add: handleClosedTab_def)

lemma handleClosedTab_unmarked:
  "input closedTab = TabInputText u \<Longrightarrow> isSupported u \<Longrightarrow>
   toString u \<notin> previewOnlyClosedUris pm \<Longrightarrow>
     \<exists>tt'. handleClosedTab api h closedTab (pm, calls) =
       (pm\<lparr>tabTracker := tt', openedPreviews := openedPreviews pm - {toString u}\<rparr>,
        calls @
        (if 100 \<le> now h - (case lastProcessedClose (tabTracker pm) (toString u) of
                              Some t \<Rightarrow> t | None \<Rightarrow> 0)
         then (case findPreviewTab h u of Some tab \<Rightarrow> [Close [tab]] | None \<Rightarrow> [])
         else [])) \<and>
       (\<forall>k. k \<noteq> toString u \<longrightarrow>
          lastProcessedClose tt' k = lastProcessedClose (tabTracker pm) k)"
proof -
  assume a: "input closedTab = TabInputText u" "isSupported u"
    "toString u \<notin> previewOnlyClosedUris pm"
  obtain r tt' h' calls' where c: "closePreviewForFile api u h (tabTracker pm) = (r, tt', h', calls')"
    by (cases "closePreviewForFile api u h (tabTracker pm)") auto
  from closePreviewForFile_calls [OF c] a c show ?thesis
    by (intro exI [of _ tt']) (simp add: handleClosedTab_def)
qed


lemma handleClosedTab_frame:
  "handleClosedTab api h closedTab (pm, calls) = (pm', calls') \<Longrightarrow>
     configManager pm' = configManager pm \<and> pendingOpens pm' = pendingOpens pm \<and>
     openedPreviews pm' \<subseteq> openedPreviews pm \<and>
     previewOnlyClosedUris pm' \<subseteq> previewOnlyClosedUris pm"
  by (cases "input closedTab")
     (auto simp: handleClosedTab_def Let_def split: if_splits prod.splits)

lemma closedKeys_Cons:
  "closedKeys (closedTab # closed) = closedKeys [closedTab] \<union> closedKeys closed"
  by auto

lemma preview_close_calls:
  assumes "input closedTab = TabInputText u" "isSupported u"
  shows "\<forall>c \<in> set (case findPreviewTab h u of Some tab \<Rightarrow> [Close [tab]] | None \<Rightarrow> []).
       \<exists>tab u. c = Close [tab] \<and> findPreviewTab h u = Some tab \<and>
              input closedTab = TabInputText u \<and> isSupported u"
  using assms by (cases "findPreviewTab h u") auto

lemma handleClosedTab_sets:
  assumes "handleClosedTab api h closedTab (pm, calls) = (pm1, calls1)"
  shows "previewOnlyClosedUris pm1 = previewOnlyClosedUris pm - closedKeys [closedTab]"
    and "openedPreviews pm - closedKeys [closedTab] \<subseteq> openedPreviews pm1"
    and "openedPreviews pm1 \<subseteq> openedPreviews pm"
    and "(closedKeys [closedTab] - previewOnlyClosedUris pm) \<inter> openedPreviews pm1 = {}"
    and "\<exists>new. calls1 = calls @ new \<and>
           (\<forall>c \<in> set new. \<exists>tab u. c = Close [tab] \<and> findPreviewTab h u = Some tab \<and>
              input closedTab = TabInputText u \<and> isSupported u)"
proof -
  define K where "K = closedKeys [closedTab]"
  consider
    (other) "\<And>u. input closedTab = TabInputText u \<Longrightarrow> \<not> isSupported u"
    | (marked) u where "input closedTab = TabInputText u" "isSupported u"
        "toString u \<in> previewOnlyClosedUris pm"
    | (unmarked) u where "input closedTab = TabInputText u" "isSupported u"
        "toString u \<notin> previewOnlyClosedUris pm"
    by (cases "input closedTab") auto
  then have "previewOnlyClosedUris pm1 = previewOnlyClosedUris pm - K \<and>
    openedPreviews pm - K \<subseteq> openedPreviews pm1 \<and>
    openedPreviews pm1 \<subseteq> openedPreviews pm \<and>
    (K - previewOnlyClosedUris pm) \<inter> openedPreviews pm1 = {} \<and>
    (\<exists>new. calls1 = calls @ new \<and>
           (\<forall>c \<in> set new. \<exists>tab u. c = Close [tab] \<and> findPreviewTab h u = Some tab \<and>
              input closedTab = TabInputText u \<and> isSupported u))"
  proof cases
    case other
    from handleClosedTab_other [where api = api and h = h and pm = pm and calls = calls, OF other] assms
    have "pm1 = pm" "calls1 = calls" by simp_all
    moreover have "K = {}" using other by (auto simp: K_def)
    ultimately show ?thesis by simp
  next
    case marked
    from handleClosedTab_marked [where api = api and h = h and calls = calls, OF marked] assms
    have "pm1 = pm\<lparr>previewOnlyClosedUris := previewOnlyClosedUris pm - {toString u}\<rparr>"
      and "calls1 = calls" by simp_all
    moreover have "K = {toString u}" using marked by (auto simp: K_def)
    ultimately show ?thesis using marked by simp
  next
    case unmarked
    from handleClosedTab_unmarked [where api = api and h = h and calls = calls, OF unmarked] assms
    obtain tt' where pm1: "pm1 = pm\<lparr>tabTracker := tt', openedPreviews := openedPreviews pm - {toString u}\<rparr>"
      and calls1: "calls1 = calls @
        (if 100 \<le> now h - (case lastProcessedClose (tabTracker pm) (toString u) of
                              Some t \<Rightarrow> t | None \<Rightarrow> 0)
         then (case findPreviewTab h u of Some tab \<Rightarrow> [Close [tab]] | None \<Rightarrow> [])
         else [])"
      by auto
    have k: "K = {toString u}" using unmarked by (auto simp: K_def)
    have c: "\<exists>new. calls1 = calls @ new \<and>
           (\<forall>c \<in> set new. \<exists>tab u. c = Close [tab] \<and> findPreviewTab h u = Some tab \<and>
              input closedTab = TabInputText u \<and> isSupported u)"
    proof (intro exI conjI)
      show "calls1 = calls @
        (if 100 \<le> now h - (case lastProcessedClose (tabTracker pm) (toString u) of
                              Some t \<Rightarrow> t | None \<Rightarrow> 0)
         then (case findPreviewTab h u of Some tab \<Rightarrow> [Close [tab]] | None \<Rightarrow> [])
         else [])" by (rule calls1)
      show "\<forall>c \<in> set (if 100 \<le> now h - (case lastProcessedClose (tabTracker pm) (toString u) of
                              Some t \<Rightarrow> t | None \<Rightarrow> 0)
         then (case findPreviewTab h u of Some tab \<Rightarrow> [Close [tab]] | None \<Rightarrow> [])
         else []). \<exists>tab u. c = Close [tab] \<and> findPreviewTab h u = Some tab \<and>
              input closedTab = TabInputText u \<and> isSupported u"
      proof (cases "100 \<le> now h - (case lastProcessedClose (tabTracker pm) (toString u) of
                              Some t \<Rightarrow> t | None \<Rightarrow> 0)")
        case True
        then show ?thesis using preview_close_calls [OF unmarked(1,2), of h] by simp
      next
        case False
        then show ?thesis by simp
      qed
    qed
    have "previewOnlyClosedUris pm1 = previewOnlyClosedUris pm - K"
      unfolding pm1 k using unmarked(3) by simp
    moreover have "openedPreviews pm - K \<subseteq> openedPreviews pm1"
      unfolding pm1 k by simp
    moreover have "openedPreviews pm1 \<subseteq> openedPreviews pm"
      unfolding pm1 by auto
    moreover have "(K - previewOnlyClosedUris pm) \<inter> openedPreviews pm1 = {}"
      unfolding pm1 k by auto
    ultimately show ?thesis using c by blast
  qed
  then show "previewOnlyClosedUris pm1 = previewOnlyClosedUris pm - closedKeys [closedTab]"
    and "openedPreviews pm - closedKeys [closedTab] \<subseteq> openedPreviews pm1"
    and "openedPreviews pm1 \<subseteq> openedPreviews pm"
    and "(closedKeys [closedTab] - previewOnlyClosedUris pm) \<inter> openedPreviews pm1 = {}"
    and "\<exists>new. calls1 = calls @ new \<and>
           (\<forall>c \<in> set new. \<exists>tab u. c = Close [tab] \<and> findPreviewTab h u = Some tab \<and>
              input closedTab = TabInputText u \<and> isSupported u)"
    unfolding K_def by blast+
qed

lemma handleClosedTabs_sets:
  assumes "foldl (\<lambda>acc closedTab. handleClosedTab api h closedTab acc) (pm, calls) closed = (pm', calls')"
  shows "previewOnlyClosedUris pm' = previewOnlyClosedUris pm - closedKeys closed"
    and "openedPreviews pm - closedKeys closed \<subseteq> openedPreviews pm'"
    and "openedPreviews pm' \<subseteq> openedPreviews pm"
    and "(closedKeys closed - previewOnlyClosedUris pm) \<inter> openedPreviews pm' = {}"
    and "configManager pm' = configManager pm \<and> pendingOpens pm' = pendingOpens pm"
    and "\<exists>new. calls' = calls @ new \<and>
           (\<forall>c \<in> set new. \<exists>tab u. c = Close [tab] \<and> findPreviewTab h u = Some tab \<and>
              (\<exists>closedTab \<in> set closed. input closedTab = TabInputText u \<and> isSupported u))"
  using assms
proof (induction closed arbitrary: pm calls)
  case Nil
  {
    case 1 then show ?case by simp
  next
    case 2 then show ?case by simp
  next
    case 3 then show ?case by simp
  next
    case 4 then show ?case by simp
  next
    case 5 then show ?case by simp
  next
    case 6 then show ?case by simp
  }
next
  case (Cons closedTab closed)
  {
    case 1
    obtain pm1 calls1 where step: "handleClosedTab api h closedTab (pm, calls) = (pm1, calls1)"
      by (cases "handleClosedTab api h closedTab (pm, calls)") auto
    with 1 have rest:
      "foldl (\<lambda>acc closedTab. handleClosedTab api h closedTab acc) (pm1, calls1) closed = (pm', calls')"
      by simp
    from Cons.IH(1) [OF rest] handleClosedTab_sets(1) [OF step] show ?case
      unfolding closedKeys_Cons [of closedTab closed] by blast
  next
    case 2
    obtain pm1 calls1 where step: "handleClosedTab api h closedTab (pm, calls) = (pm1, calls1)"
      by (cases "handleClosedTab api h closedTab (pm, calls)") auto
    with 2 have rest:
      "foldl (\<lambda>acc closedTab. handleClosedTab api h closedTab acc) (pm1, calls1) closed = (pm', calls')"
      by simp
    from Cons.IH(2) [OF rest] handleClosedTab_sets(2) [OF step] show ?case
      unfolding closedKeys_Cons [of closedTab closed] by blast
  next
    case 3
    obtain pm1 calls1 where step: "handleClosedTab api h closedTab (pm, calls) = (pm1, calls1)"
      by (cases "handleClosedTab api h closedTab (pm, calls)") auto
    with 3 have rest:
      "foldl (\<lambda>acc closedTab. handleClosedTab api h closedTab acc) (pm1, calls1) closed = (pm', calls')"
      by simp
    from Cons.IH(3) [OF rest] handleClosedTab_sets(3) [OF step] show ?case by blast
  next
    case 4
    obtain pm1 calls1 where step: "handleClosedTab api h closedTab (pm, calls) = (pm1, calls1)"
      by (cases "handleClosedTab api h closedTab (pm, calls)") auto
    with 4 have rest:
      "foldl (\<lambda>acc closedTab. handleClosedTab api h closedTab acc) (pm1, calls1) closed = (pm', calls')"
      by simp
    from Cons.IH(4) [OF rest] Cons.IH(3) [OF rest] handleClosedTab_sets(1,4) [OF step] show ?case
      unfolding closedKeys_Cons [of closedTab closed] by blast
  next
    case 5
    obtain pm1 calls1 where step: "handleClosedTab api h closedTab (pm, calls) = (pm1, calls1)"
      by (cases "handleClosedTab api h closedTab (pm, calls)") auto
    with 5 have rest:
      "foldl (\<lambda>acc closedTab. handleClosedTab api h closedTab acc) (pm1, calls1) closed = (pm', calls')"
      by simp
    from Cons.IH(5) [OF rest] handleClosedTab_frame [OF step] show ?case by simp
  next
    case 6
    obtain pm1 calls1 where step: "handleClosedTab api h closedTab (pm, calls) = (pm1, calls1)"
      by (cases "handleClosedTab api h closedTab (pm, calls)") auto
    with 6 have rest:
      "foldl (\<lambda>acc closedTab. handleClosedTab api h closedTab acc) (pm1, calls1) closed = (pm', calls')"
      by simp
    from handleClosedTab_sets(5) [OF step] obtain new1 where n1: "calls1 = calls @ new1"
      and c1: "\<forall>c \<in> set new1. \<exists>tab u. c = Close [tab] \<and> findPreviewTab h u = Some tab \<and>
              input closedTab = TabInputText u \<and> isSupported u" by blast
    from Cons.IH(6) [OF rest] obtain new2 where n2: "calls' = calls1 @ new2"
      and c2: "\<forall>c \<in> set new2. \<exists>tab u. c = Close [tab] \<and> findPreviewTab h u = Some tab \<and>
              (\<exists>closedTab \<in> set closed. input closedTab = TabInputText u \<and> isSupported u)" by blast
    have "calls' = calls @ (new1 @ new2)" using n1 n2 by simp
    moreover have "\<forall>c \<in> set (new1 @ new2). \<exists>tab u. c = Close [tab] \<and> findPreviewTab h u = Some tab \<and>
              (\<exists>ct \<in> set (closedTab # closed). input ct = TabInputText u \<and> isSupported u)"
    proof
      fix c assume "c \<in> set (new1 @ new2)"
      then consider "c \<in> set new1" | "c \<in> set new2" by auto
      then show "\<exists>tab u. c = Close [tab] \<and> findPreviewTab h u = Some tab \<and>
              (\<exists>ct \<in> set (closedTab # closed). input ct = TabInputText u \<and> isSupported u)"
      proof cases
        case 1
        with c1 obtain tab u where "c = Close [tab]" "findPreviewTab h u = Some tab"
          "input closedTab = TabInputText u" "isSupported u" by blast
        then show ?thesis by auto
      next
        case 2
        with c2 obtain tab u ct where "c = Close [tab]" "findPreviewTab h u = Some tab"
          "ct \<in> set closed" "input ct = TabInputText u" "isSupported u" by blast
        then show ?thesis by auto
      qed
    qed
    ultimately show ?case by blast
  }
qed


text \<open>
  When every key occurs once among the closed tabs, each tab is handled in the state the
  event started with, as far as its own key goes.
\<close>

lemma set_closedKeyList: "set (closedKeyList closed) = closedKeys closed"
  by (induction closed) (auto split: TabInput.splits if_splits)

lemma handleClosedTab_calls:
  assumes "handleClosedTab api h closedTab (pm, calls) = (pm1, calls1)"
  shows "calls1 = calls @ closeCallsFor pm h closedTab"
    and "\<And>k. k \<notin> closedKeys [closedTab] \<Longrightarrow>
           (k \<in> previewOnlyClosedUris pm1 \<longleftrightarrow> k \<in> previewOnlyClosedUris pm) \<and>
           lastProcessedClose (tabTracker pm1) k = lastProcessedClose (tabTracker pm) k"
    and "closedKeys [closedTab] \<subseteq> previewOnlyClosedUris pm \<Longrightarrow>
           openedPreviews pm1 = openedPreviews pm"
    and "closedKeys [closedTab] \<inter> previewOnlyClosedUris pm = {} \<Longrightarrow>
           openedPreviews pm1 = openedPreviews pm - closedKeys [closedTab]"
proof -
  define K where "K = closedKeys [closedTab]"
  consider
    (other) "\<And>u. input closedTab = TabInputText u \<Longrightarrow> \<not> isSupported u"
    | (marked) u where "input closedTab = TabInputText u" "isSupported u"
        "toString u \<in> previewOnlyClosedUris pm"
    | (unmarked) u where "input closedTab = TabInputText u" "isSupported u"
        "toString u \<notin> previewOnlyClosedUris pm"
    by (cases "input closedTab") auto
  then have "calls1 = calls @ closeCallsFor pm h closedTab \<and>
     (\<forall>k. k \<notin> K \<longrightarrow>
           (k \<in> previewOnlyClosedUris pm1 \<longleftrightarrow> k \<in> previewOnlyClosedUris pm) \<and>
           lastProcessedClose (tabTracker pm1) k = lastProcessedClose (tabTracker pm) k) \<and>
     (K \<subseteq> previewOnlyClosedUris pm \<longrightarrow> openedPreviews pm1 = openedPreviews pm) \<and>
     (K \<inter> previewOnlyClosedUris pm = {} \<longrightarrow>
           openedPreviews pm1 = openedPreviews pm - K)"
  proof cases
    case other
    from handleClosedTab_other [where api = api and h = h and pm = pm and calls = calls, OF other] assms
    have "pm1 = pm" "calls1 = calls" by simp_all
    moreover have "closeCallsFor pm h closedTab = []"
      using other by (cases "input closedTab") auto
    moreover have "K = {}" using other by (auto simp: K_def)
    ultimately show ?thesis by simp
  next
    case marked
    from handleClosedTab_marked [where api = api and h = h and calls = calls, OF marked] assms
    have pm1: "pm1 = pm\<lparr>previewOnlyClosedUris := previewOnlyClosedUris pm - {toString u}\<rparr>"
      and "calls1 = calls" by simp_all
    moreover have "closeCallsFor pm h closedTab = []"
      using marked by simp
    moreover have k: "K = {toString u}" using marked by (auto simp: K_def)
    ultimately show ?thesis unfolding k using marked(3) by auto
  next
    case unmarked
    from handleClosedTab_unmarked [where api = api and h = h and calls = calls, OF unmarked] assms
    obtain tt' where pm1: "pm1 = pm\<lparr>tabTracker := tt', openedPreviews := openedPreviews pm - {toString u}\<rparr>"
      and calls1: "calls1 = calls @
        (if 100 \<le> now h - (case lastProcessedClose (tabTracker pm) (toString u) of
                              Some t \<Rightarrow> t | None \<Rightarrow> 0)
         then (case findPreviewTab h u of Some tab \<Rightarrow> [Close [tab]] | None \<Rightarrow> [])
         else [])"
      and tt': "\<forall>k. k \<noteq> toString u \<longrightarrow>
          lastProcessedClose tt' k = lastProcessedClose (tabTracker pm) k"
      by auto
    have c: "closeCallsFor pm h closedTab =
        (if 100 \<le> now h - (case lastProcessedClose (tabTracker pm) (toString u) of
                              Some t \<Rightarrow> t | None \<Rightarrow> 0)
         then (case findPreviewTab h u of Some tab \<Rightarrow> [Close [tab]] | None \<Rightarrow> [])
         else [])"
      using unmarked by simp
    have k: "K = {toString u}" using unmarked by (auto simp: K_def)
    have "calls1 = calls @ closeCallsFor pm h closedTab" unfolding c by (rule calls1)
    moreover have "\<forall>k. k \<notin> K \<longrightarrow>
           (k \<in> previewOnlyClosedUris pm1 \<longleftrightarrow> k \<in> previewOnlyClosedUris pm) \<and>
           lastProcessedClose (tabTracker pm1) k = lastProcessedClose (tabTracker pm) k"
      unfolding k pm1 using tt' by simp
    moreover have "K \<subseteq> previewOnlyClosedUris pm \<longrightarrow> openedPreviews pm1 = openedPreviews pm"
      unfolding k using unmarked(3) by simp
    moreover have "K \<inter> previewOnlyClosedUris pm = {} \<longrightarrow>
           openedPreviews pm1 = openedPreviews pm - K"
      unfolding k pm1 by simp
    ultimately show ?thesis by blast
  qed
  then show "calls1 = calls @ closeCallsFor pm h closedTab"
    and "\<And>k. k \<notin> closedKeys [closedTab] \<Longrightarrow>
           (k \<in> previewOnlyClosedUris pm1 \<longleftrightarrow> k \<in> previewOnlyClosedUris pm) \<and>
           lastProcessedClose (tabTracker pm1) k = lastProcessedClose (tabTracker pm) k"
    and "closedKeys [closedTab] \<subseteq> previewOnlyClosedUris pm \<Longrightarrow>
           openedPreviews pm1 = openedPreviews pm"
    and "closedKeys [closedTab] \<inter> previewOnlyClosedUris pm = {} \<Longrightarrow>
           openedPreviews pm1 = openedPreviews pm - closedKeys [closedTab]"
    unfolding K_def by blast+
qed

lemma closeCallsFor_cong:
  assumes "\<And>k. k \<in> closedKeys [closedTab] \<Longrightarrow>
           (k \<in> previewOnlyClosedUris pm1 \<longleftrightarrow> k \<in> previewOnlyClosedUris pm) \<and>
           lastProcessedClose (tabTracker pm1) k = lastProcessedClose (tabTracker pm) k"
  shows "closeCallsFor pm1 h closedTab = closeCallsFor pm h closedTab"
proof (cases "input closedTab")
  case (TabInputText u)
  show ?thesis
  proof (cases "isSupported u")
    case True
    with TabInputText have "toString u \<in> closedKeys [closedTab]" by auto
    from assms [OF this] TabInputText True show ?thesis by simp
  next
    case False
    with TabInputText show ?thesis by simp
  qed
qed simp_all


lemma closedKeys_single:
  "closedKeys [closedTab] \<subseteq> M \<or> closedKeys [closedTab] \<inter> M = {}"
  by (cases "input closedTab") auto

lemma handleClosedTabs_distinct:
  assumes "distinct (closedKeyList closed)"
    and "foldl (\<lambda>acc closedTab. handleClosedTab api h closedTab acc) (pm, calls) closed = (pm', calls')"
  shows "calls' = calls @ concat (map (closeCallsFor pm h) closed)"
    and "openedPreviews pm' =
           openedPreviews pm - (closedKeys closed - previewOnlyClosedUris pm)"
  using assms
proof (induction closed arbitrary: pm calls)
  case Nil
  {
    case 1 then show ?case by simp
  next
    case 2 then show ?case by simp
  }
next
  case (Cons closedTab closed)
  {
    case 1
    obtain pm1 calls1 where step: "handleClosedTab api h closedTab (pm, calls) = (pm1, calls1)"
      by (cases "handleClosedTab api h closedTab (pm, calls)") auto
    with 1 have rest:
      "foldl (\<lambda>acc closedTab. handleClosedTab api h closedTab acc) (pm1, calls1) closed = (pm', calls')"
      by simp
    from 1(1) have d: "distinct (closedKeyList closed)"
      and disj: "set (closedKeyList [closedTab]) \<inter> set (closedKeyList closed) = {}"
      by simp_all
    from disj have disj': "closedKeys [closedTab] \<inter> closedKeys closed = {}"
      unfolding set_closedKeyList .
    have same: "closeCallsFor pm1 h tab = closeCallsFor pm h tab" if "tab \<in> set closed" for tab
    proof (rule closeCallsFor_cong)
      fix k assume "k \<in> closedKeys [tab]"
      with that have "k \<in> closedKeys closed" by auto
      with disj' have "k \<notin> closedKeys [closedTab]" by blast
      from handleClosedTab_calls(2) [OF step this]
      show "(k \<in> previewOnlyClosedUris pm1 \<longleftrightarrow> k \<in> previewOnlyClosedUris pm) \<and>
           lastProcessedClose (tabTracker pm1) k = lastProcessedClose (tabTracker pm) k" .
    qed
    then have "map (closeCallsFor pm1 h) closed = map (closeCallsFor pm h) closed"
      by (intro map_cong refl) 
    with Cons.IH(1) [OF d rest] handleClosedTab_calls(1) [OF step] show ?case by simp
  next
    case 2
    obtain pm1 calls1 where step: "handleClosedTab api h closedTab (pm, calls) = (pm1, calls1)"
      by (cases "handleClosedTab api h closedTab (pm, calls)") auto
    with 2 have rest:
      "foldl (\<lambda>acc closedTab. handleClosedTab api h closedTab acc) (pm1, calls1) closed = (pm', calls')"
      by simp
    from 2(1) have d: "distinct (closedKeyList closed)"
      and disj: "set (closedKeyList [closedTab]) \<inter> set (closedKeyList closed) = {}"
      by simp_all
    from disj have disj': "closedKeys [closedTab] \<inter> closedKeys closed = {}"
      unfolding set_closedKeyList .
    define K1 where "K1 = closedKeys [closedTab]"
    define K2 where "K2 = closedKeys closed"
    have K: "closedKeys (closedTab # closed) = K1 \<union> K2"
      unfolding K1_def K2_def by (rule closedKeys_Cons)
    have marks1: "previewOnlyClosedUris pm1 = previewOnlyClosedUris pm - K1"
      unfolding K1_def by (rule handleClosedTab_sets(1) [OF step])
    have IH: "openedPreviews pm' = openedPreviews pm1 - (K2 - previewOnlyClosedUris pm1)"
      unfolding K2_def by (rule Cons.IH(2) [OF d rest])
    have disjK: "K1 \<inter> K2 = {}" using disj' unfolding K1_def K2_def .
    from closedKeys_single [of closedTab "previewOnlyClosedUris pm"]
    consider (marked) "K1 \<subseteq> previewOnlyClosedUris pm"
      | (unmarked) "K1 \<inter> previewOnlyClosedUris pm = {}"
      unfolding K1_def by blast
    then have "openedPreviews pm' = openedPreviews pm - (K1 \<union> K2 - previewOnlyClosedUris pm)"
    proof cases
      case marked
      then have "openedPreviews pm1 = openedPreviews pm"
        unfolding K1_def by (rule handleClosedTab_calls(3) [OF step])
      with IH marks1 disjK marked show ?thesis by blast
    next
      case unmarked
      then have "openedPreviews pm1 = openedPreviews pm - K1"
        unfolding K1_def by (rule handleClosedTab_calls(4) [OF step])
      with IH marks1 disjK unmarked show ?thesis by blast
    qed
    then show ?case unfolding K .
  }
qed

text \<open>
  Claim C3, as the code has it. For a tab-change event handled with the extension enabled
  and \<open>autoClosePreview\<close> on, write \<open>K\<close> for the keys of the closed text tabs with a
  supported extension. Every key of \<open>K\<close> is unmarked; the opened-previews set only
  shrinks, and only by keys of \<open>K\<close>; a key of \<open>K\<close> that was not marked as closed by
  preview-only mode is removed from it; and every call made is the close of the preview
  tab found for one of these tabs. When every key occurs once among them, the calls are,
  tab by tab in order: for a tab not marked as closed by preview-only mode and not inside
  the 100 millisecond debounce window of its URI, the close of the preview tab found for
  it (nothing when none is found); for a marked tab, and for a tab inside the window,
  nothing. The opened-previews set then loses exactly the unmarked keys of \<open>K\<close>: the
  marked ones stay.
\<close>

theorem handleTabChanges_autoClose:
  assumes "enabled (config (configManager pm))"
    and "autoClosePreview (config (configManager pm))"
    and "handleTabChanges api closed randomBelowTenth h pm = (pm', calls)"
  shows "previewOnlyClosedUris pm' =
           previewOnlyClosedUris pm -
           {toString u | u. \<exists>tab \<in> set closed. input tab = TabInputText u \<and> isSupported u} \<and>
         openedPreviews pm -
           {toString u | u. \<exists>tab \<in> set closed. input tab = TabInputText u \<and> isSupported u}
           \<subseteq> openedPreviews pm' \<and>
         openedPreviews pm' \<subseteq> openedPreviews pm \<and>
         (\<forall>u. (\<exists>tab \<in> set closed. input tab = TabInputText u \<and> isSupported u) \<and>
              toString u \<notin> previewOnlyClosedUris pm \<longrightarrow> toString u \<notin> openedPreviews pm') \<and>
         (\<forall>c \<in> set calls. \<exists>tab u. c = Close [tab] \<and> findPreviewTab h u = Some tab \<and>
              (\<exists>closedTab \<in> set closed. input closedTab = TabInputText u \<and> isSupported u)) \<and>
         (distinct (concat (map (\<lambda>tab. case input tab of
                                      TabInputText u \<Rightarrow> if isSupported u then [toString u] else []
                                    | _ \<Rightarrow> []) closed)) \<longrightarrow>
            calls =
              concat (map (\<lambda>closedTab.
                (case input closedTab of
                   TabInputText u \<Rightarrow>
                     if isSupported u \<and> toString u \<notin> previewOnlyClosedUris pm \<and>
                        100 \<le> now h - (case lastProcessedClose (tabTracker pm) (toString u) of
                                          Some t \<Rightarrow> t | None \<Rightarrow> 0)
                     then (case findPreviewTab h u of Some tab \<Rightarrow> [Close [tab]] | None \<Rightarrow> [])
                     else []
                 | _ \<Rightarrow> [])) closed) \<and>
            openedPreviews pm' =
              openedPreviews pm -
              ({toString u | u. \<exists>tab \<in> set closed. input tab = TabInputText u \<and> isSupported u} -
               previewOnlyClosedUris pm))"
proof -
  obtain pm2 calls2 where loop:
    "foldl (\<lambda>acc closedTab. handleClosedTab api h closedTab acc) (pm, []) closed = (pm2, calls2)"
    by (cases "foldl (\<lambda>acc closedTab. handleClosedTab api h closedTab acc) (pm, []) closed") auto
  with assms have pm': "pm' = (if randomBelowTenth
              then pm2\<lparr>tabTracker := cleanupDebounceMap h (tabTracker pm2)\<rparr> else pm2)"
    and calls: "calls = calls2"
    by (simp_all add: handleTabChanges_def Let_def)
  have marks: "previewOnlyClosedUris pm' = previewOnlyClosedUris pm2"
    and opened: "openedPreviews pm' = openedPreviews pm2"
    unfolding pm' by simp_all
  note S = handleClosedTabs_sets [OF loop]
  have 1: "previewOnlyClosedUris pm' = previewOnlyClosedUris pm - closedKeys closed"
    unfolding marks by (rule S(1))
  have 2: "openedPreviews pm - closedKeys closed \<subseteq> openedPreviews pm'"
    unfolding opened by (rule S(2))
  have 3: "openedPreviews pm' \<subseteq> openedPreviews pm"
    unfolding opened by (rule S(3))
  have 4: "\<forall>u. (\<exists>tab \<in> set closed. input tab = TabInputText u \<and> isSupported u) \<and>
              toString u \<notin> previewOnlyClosedUris pm \<longrightarrow> toString u \<notin> openedPreviews pm'"
    unfolding opened using S(4) by blast
  have 5: "\<forall>c \<in> set calls. \<exists>tab u. c = Close [tab] \<and> findPreviewTab h u = Some tab \<and>
              (\<exists>closedTab \<in> set closed. input closedTab = TabInputText u \<and> isSupported u)"
    unfolding calls using S(6) by simp
  have 6: "calls = concat (map (closeCallsFor pm h) closed) \<and>
           openedPreviews pm' = openedPreviews pm - (closedKeys closed - previewOnlyClosedUris pm)"
    if d: "distinct (closedKeyList closed)"
    unfolding calls opened
    using handleClosedTabs_distinct [OF d loop] by simp
  from 1 2 3 4 5 6 show ?thesis by blast
qed


lemma ex_closed:
  "findPreviewTab ex_host_closed ex_readme = Some ex_tab_preview"
  "input ex_tab_source = TabInputText ex_readme"
  "now ex_host_closed = 1000000"
  by (simp_all add: findPreviewTab_def getLanguageId_def ex_paths ex_languages
      getExpectedPreviewLabel_def ex_host_closed_def ex_tab_source_def ex_tab_preview_def)

lemma ex_tracking:
  "config (configManager ex_manager_tracking) = ex_config"
  "config (configManager ex_manager_recent) = ex_config"
  "previewOnlyClosedUris ex_manager_tracking = {}"
  "previewOnlyClosedUris ex_manager_recent = {}"
  "openedPreviews ex_manager_tracking = {toString ex_readme}"
  "openedPreviews ex_manager_recent = {toString ex_readme}"
  "tabTracker ex_manager_tracking = \<lparr>lastProcessedClose = Map.empty\<rparr>"
  "tabTracker ex_manager_recent = \<lparr>lastProcessedClose = [toString ex_readme \<mapsto> 999950]\<rparr>"
  by (simp_all add: ex_manager_tracking_def ex_manager_recent_def ex_manager_def
      loadConfigManager_def)

theorem handleTabChanges_autoClose_witness:
  "enabled (config (configManager ex_manager_tracking)) \<and>
   autoClosePreview (config (configManager ex_manager_tracking)) \<and>
   handleTabChanges ex_api [ex_tab_source] False ex_host_closed ex_manager_tracking =
     (ex_manager_tracking
        \<lparr>tabTracker := \<lparr>lastProcessedClose = [toString ex_readme \<mapsto> 1000000]\<rparr>,
         openedPreviews := {}\<rparr>,
      [Close [ex_tab_preview]]) \<and>
   toString ex_readme \<notin>
     openedPreviews (fst (handleTabChanges ex_api [ex_tab_source] False ex_host_closed
                            ex_manager_tracking))"
proof -
  have 1: "enabled (config (configManager ex_manager_tracking))"
    and 2: "autoClosePreview (config (configManager ex_manager_tracking))"
    by (simp_all add: ex_tracking ex_config_simps)
  have close: "closePreviewForFile ex_api ex_readme ex_host_closed \<lparr>lastProcessedClose = Map.empty\<rparr> =
      (True, \<lparr>lastProcessedClose = [toString ex_readme \<mapsto> 1000000]\<rparr>,
       ex_host_closed\<lparr>tabGroups_all := [[], []]\<rparr>, [Close [ex_tab_preview]])"
    by (simp add: closePreviewForFile_def DEBOUNCE_MS_def ex_closed)
       (simp add: ex_api_def ex_host_closed_def)
  have run: "handleTabChanges ex_api [ex_tab_source] False ex_host_closed ex_manager_tracking =
     (ex_manager_tracking
        \<lparr>tabTracker := \<lparr>lastProcessedClose = [toString ex_readme \<mapsto> 1000000]\<rparr>,
         openedPreviews := {}\<rparr>,
      [Close [ex_tab_preview]])"
    by (simp add: handleTabChanges_def handleClosedTab_def Let_def ex_tracking ex_config_simps
        ex_closed ex_doc_simps(5) close)
  show ?thesis
    using handleTabChanges_autoClose [OF 1 2 run] 1 2 run
    by (simp add: ex_closed ex_doc_simps(5) ex_tracking)
qed

text \<open>
  Claim C3 as stated fails inside the debounce window: the source tab of \<open>README.md\<close>
  is reported closed 50 milliseconds after a close was processed for the same URI; the
  tab is not marked as closed by preview-only mode and its preview tab is open, but no
  close is requested, while the URI is removed from the opened-previews set.
\<close>

theorem handleTabChanges_debounced_no_close:
  "enabled (config (configManager ex_manager_recent)) \<and>
   autoClosePreview (config (configManager ex_manager_recent)) \<and>
   input ex_tab_source = TabInputText ex_readme \<and> isSupported ex_readme \<and>
   toString ex_readme \<notin> previewOnlyClosedUris ex_manager_recent \<and>
   findPreviewTab ex_host_closed ex_readme = Some ex_tab_preview \<and>
   handleTabChanges ex_api [ex_tab_source] False ex_host_closed ex_manager_recent =
     (ex_manager_recent\<lparr>openedPreviews := {}\<rparr>, [])"
proof -
  have close: "closePreviewForFile ex_api ex_readme ex_host_closed
        \<lparr>lastProcessedClose = [toString ex_readme \<mapsto> 999950]\<rparr> =
      (False, \<lparr>lastProcessedClose = [toString ex_readme \<mapsto> 999950]\<rparr>, ex_host_closed, [])"
    by (simp add: closePreviewForFile_def DEBOUNCE_MS_def ex_closed)
  have run: "handleTabChanges ex_api [ex_tab_source] False ex_host_closed ex_manager_recent =
     (ex_manager_recent\<lparr>openedPreviews := {}\<rparr>, [])"
    by (simp add: handleTabChanges_def handleClosedTab_def Let_def ex_tracking ex_config_simps
        ex_closed ex_doc_simps(5) close)
  then show ?thesis
    by (simp add: ex_tracking ex_config_simps ex_closed ex_doc_simps(5))
qed

section \<open>Tracking of the opened previews\<close>













section \<open>Every call is made in reaction to an event\<close>











end
